theory Spec2Isabelle
  imports Main
begin

section \<open>Data model\<close>

text \<open>
  \<^verbatim>\<open>app/models/user.py\<close>: the role enumeration and the \<^verbatim>\<open>users\<close> table.
  \<^verbatim>\<open>app/schemas/user.py\<close>: \<^verbatim>\<open>UserBase\<close> and \<^verbatim>\<open>UserCreate\<close>.  The table row has
  the columns of \<^verbatim>\<open>UserBase\<close> plus \<^verbatim>\<open>id\<close> (a string holding a UUID, written
  \<open>user_id\<close> here because \<open>id\<close> is the identity function of HOL),
  \<^verbatim>\<open>hashed_password\<close> and \<^verbatim>\<open>is_active\<close>.  The two timestamp columns are read
  by none of the operations below and are left out.
\<close>

datatype UserRole = ADMIN | STAFF

record UserBase =
  email :: string
  username :: string
  first_name :: string
  last_name :: string
  phone_number :: "string option"
  role :: UserRole

record UserCreate = UserBase +
  password :: string

record User = UserBase +
  user_id :: string
  hashed_password :: string
  is_active :: bool

text \<open>
  \<^verbatim>\<open>app/schemas/token.py\<close>: the response \<^verbatim>\<open>Token\<close> and the claim set
  \<^verbatim>\<open>TokenPayload\<close> (\<^verbatim>\<open>sub: str\<close>, \<^verbatim>\<open>exp: int\<close>, \<^verbatim>\<open>type: str\<close>).  A decoded
  payload is a dictionary read with \<^verbatim>\<open>.get\<close>, so every claim may be absent; the
  dictionary without any claim is \<open>empty_payload\<close>, which Python treats as false.
\<close>

record Token =
  access_token :: string
  refresh_token :: string
  token_type :: string

record token_payload =
  sub :: "string option"
  exp :: "int option"
  type :: "string option"

definition empty_payload :: token_payload where
  "empty_payload = \<lparr>sub = None, exp = None, type = None\<rparr>"

text \<open>
  \<^verbatim>\<open>app/utils/exceptions.py\<close>: every application exception is an
  \<^verbatim>\<open>HTTPException\<close> with a fixed status code.  The two other constructors are the
  exceptions of the object-relational mapper that the modelled code can meet:
  \<^verbatim>\<open>scalar_one_or_none\<close> on several rows, and a constraint violation at flush.
\<close>

datatype exn =
    HTTPException (status_code: nat) (detail: string) (headers: "(string \<times> string) list")
  | MultipleResultsFound
  | IntegrityError

definition UnauthorizedException :: "string \<Rightarrow> exn" where
  "UnauthorizedException d = HTTPException 401 d [(''WWW-Authenticate'', ''Bearer'')]"

definition ForbiddenException :: "string \<Rightarrow> exn" where
  "ForbiddenException d = HTTPException 403 d []"

definition ConflictException :: "string \<Rightarrow> exn" where
  "ConflictException d = HTTPException 409 d []"

text \<open>
  The response status the framework sends for an exception that leaves a handler:
  an \<^verbatim>\<open>HTTPException\<close> carries its own code, and \<^verbatim>\<open>main.py\<close> installs no
  exception handler, so anything else ends as 500.
\<close>

fun http_status :: "exn \<Rightarrow> nat" where
  "http_status (HTTPException c d h) = c"
| "http_status MultipleResultsFound = 500"
| "http_status IntegrityError = 500"

section \<open>The store\<close>

text \<open>
  A database session (\<^verbatim>\<open>app/database.py\<close>): the committed rows of \<^verbatim>\<open>users\<close>
  and the objects added to the session and not yet flushed
  (\<^verbatim>\<open>autoflush=False\<close>, so a query reads the committed rows only).
\<close>

record session =
  store :: "User list"
  pending :: "User list"

text \<open>\<^verbatim>\<open>Result.scalar_one_or_none()\<close>: no row, the one row, or an exception.\<close>

fun scalar_one_or_none :: "'a list \<Rightarrow> exn + 'a option" where
  "scalar_one_or_none [] = Inr None"
| "scalar_one_or_none [x] = Inr (Some x)"
| "scalar_one_or_none (x # y # zs) = Inl MultipleResultsFound"

text \<open>
  The constraints of the table: \<^verbatim>\<open>id\<close> is the primary key, \<^verbatim>\<open>email\<close> and
  \<^verbatim>\<open>username\<close> are \<^verbatim>\<open>unique=True\<close>.
\<close>

definition violates :: "User list \<Rightarrow> User \<Rightarrow> bool" where
  "violates rows u \<longleftrightarrow>
     (\<exists>v \<in> set rows. user_id v = user_id u \<or> email v = email u \<or> username v = username u)"

fun flush :: "User list \<Rightarrow> User list \<Rightarrow> exn + User list" where
  "flush [] rows = Inr rows"
| "flush (u # us) rows = (if violates rows u then Inl IntegrityError else flush us (rows @ [u]))"

definition add :: "session \<Rightarrow> User \<Rightarrow> session" where
  "add db u = db\<lparr>pending := pending db @ [u]\<rparr>"

text \<open>
  \<^verbatim>\<open>session.commit()\<close>.  The first argument lists the rows that other requests
  committed since this request last read the table: each \<^verbatim>\<open>await\<close> is a point where
  another request may run.  The pending objects are inserted one by one; a violated
  constraint raises and leaves them pending until the rollback.
\<close>

definition commit :: "User list \<Rightarrow> session \<Rightarrow> (exn + unit) \<times> session" where
  "commit concurrent db =
     (case flush (pending db) (store db @ concurrent) of
        Inl e \<Rightarrow> (Inl e, db\<lparr>store := store db @ concurrent\<rparr>)
      | Inr rows \<Rightarrow> (Inr (), \<lparr>store = rows, pending = []\<rparr>))"

definition rollback :: "session \<Rightarrow> session" where
  "rollback db = db\<lparr>pending := []\<rparr>"

text \<open>
  \<^verbatim>\<open>get_db\<close>: run the handler on the session; commit when it returns; on any
  exception roll back and raise it again.
\<close>

definition get_db ::
  "(session \<Rightarrow> (exn + 'a) \<times> session) \<Rightarrow> session \<Rightarrow> (exn + 'a) \<times> session" where
  "get_db handler session0 =
     (case handler session0 of
        (Inl e, db) \<Rightarrow> (Inl e, rollback db)
      | (Inr r, db) \<Rightarrow>
          (case commit [] db of
             (Inl e, db') \<Rightarrow> (Inl e, rollback db')
           | (Inr u, db') \<Rightarrow> (Inr r, db')))"

section \<open>Strings\<close>

text \<open>Python's \<^verbatim>\<open>s.startswith(p)\<close>, \<^verbatim>\<open>p in s\<close> and \<^verbatim>\<open>s.replace(old, new)\<close>.\<close>

definition startswith :: "string \<Rightarrow> string \<Rightarrow> bool" where
  "startswith s p \<longleftrightarrow> take (length p) s = p"

fun contains :: "string \<Rightarrow> string \<Rightarrow> bool" where
  "contains [] p \<longleftrightarrow> p = []"
| "contains (c # cs) p \<longleftrightarrow> take (length p) (c # cs) = p \<or> contains cs p"

function replace :: "string \<Rightarrow> string \<Rightarrow> string \<Rightarrow> string" where
  "replace [] old new = (if old = [] then new else [])"
| "replace (c # cs) old new =
     (if old = [] then new @ concat (map (\<lambda>x. x # new) (c # cs))
      else if take (length old) (c # cs) = old
        then new @ replace (drop (length old) (c # cs)) old new
      else c # replace cs old new)"
  by pat_completeness auto
termination
  by (relation "measure (\<lambda>(s, old, new). length s)") auto

section \<open>The security module\<close>

text \<open>
  \<^verbatim>\<open>app/utils/security.py\<close> is not among the sources.  The routers and the
  dependencies call five of its functions; they are the fields of a record, so
  that every statement about a caller holds for any implementation of them.  A call
  that draws a salt or reads the clock is the field's value at the moment of the
  request.
\<close>

record security =
  verify_password :: "string \<Rightarrow> string \<Rightarrow> bool"
  get_password_hash :: "string \<Rightarrow> string"
  create_access_token :: "(string \<times> string) list \<Rightarrow> string"
  create_refresh_token :: "(string \<times> string) list \<Rightarrow> string"
  decode_token :: "string \<Rightarrow> token_payload option"

text \<open>
  Modelled from the spec: \<^verbatim>\<open>verify_token_type\<close> of the absent
  \<^verbatim>\<open>app/utils/security.py\<close>, the spec's \<^verbatim>\<open>check_type(claims, expected)\<close>, which
  "confirms the type claim matches an expected tag".
\<close>

definition verify_token_type :: "token_payload \<Rightarrow> string \<Rightarrow> bool" where
  "verify_token_type payload expected \<longleftrightarrow> type payload = Some expected"

section \<open>Dependencies\<close>

text \<open>
  \<^verbatim>\<open>app/dependencies.py\<close>, \<^verbatim>\<open>get_current_user\<close>.  \<open>UUID\<close> is the set of strings
  that the constructor \<^verbatim>\<open>uuid.UUID\<close> of the standard library accepts; on any other
  string it raises \<^verbatim>\<open>ValueError\<close>, which the function catches.
\<close>

definition get_current_user ::
  "security \<Rightarrow> (string \<Rightarrow> bool) \<Rightarrow> session \<Rightarrow> string option \<Rightarrow> exn + User" where
  "get_current_user sec UUID db authorization =
     (case authorization of
        None \<Rightarrow> Inl (UnauthorizedException ''Missing or invalid authorization header'')
      | Some a \<Rightarrow>
          if a = [] \<or> \<not> startswith a ''Bearer ''
          then Inl (UnauthorizedException ''Missing or invalid authorization header'')
          else
            let token = replace a ''Bearer '' [] in
            (case decode_token sec token of
               None \<Rightarrow> Inl (UnauthorizedException ''Invalid or expired token'')
             | Some payload \<Rightarrow>
                 if payload = empty_payload
                 then Inl (UnauthorizedException ''Invalid or expired token'')
                 else if \<not> verify_token_type payload ''access''
                 then Inl (UnauthorizedException ''Invalid token type'')
                 else
                   (case sub payload of
                      None \<Rightarrow> Inl (UnauthorizedException ''Invalid token payload'')
                    | Some uid \<Rightarrow>
                        if uid = [] then Inl (UnauthorizedException ''Invalid token payload'')
                        else if \<not> UUID uid
                        then Inl (UnauthorizedException ''Invalid user ID format'')
                        else
                          (case scalar_one_or_none (filter (\<lambda>u. user_id u = uid) (store db)) of
                             Inl e \<Rightarrow> Inl e
                           | Inr None \<Rightarrow> Inl (UnauthorizedException ''User not found'')
                           | Inr (Some user) \<Rightarrow>
                               if \<not> is_active user
                               then Inl (UnauthorizedException ''User account is deactivated'')
                               else Inr user))))"

text \<open>\<^verbatim>\<open>require_admin\<close>, on the principal that \<^verbatim>\<open>get_current_user\<close> returned.\<close>

definition require_admin :: "User \<Rightarrow> exn + User" where
  "require_admin current_user =
     (if role current_user \<noteq> ADMIN then Inl (ForbiddenException ''Admin access required'')
      else Inr current_user)"

text \<open>
  \<^verbatim>\<open>Depends(get_current_user)\<close>: the framework resolves the dependency first and
  calls the dependent only with its value; an exception of the dependency is the
  outcome of the whole chain.
\<close>

definition Depends :: "exn + 'a \<Rightarrow> ('a \<Rightarrow> exn + 'b) \<Rightarrow> exn + 'b" where
  "Depends dependency f = (case dependency of Inl e \<Rightarrow> Inl e | Inr v \<Rightarrow> f v)"

section \<open>Authentication router\<close>

text \<open>
  \<^verbatim>\<open>app/routers/auth.py\<close>, \<^verbatim>\<open>register\<close>.  \<open>new_id\<close> is the value that the column
  default \<^verbatim>\<open>str(uuid.uuid4())\<close> draws for the new row, \<open>concurrent\<close> the rows
  that other requests commit between the two queries of this request and its
  commit (none when the request runs alone).
\<close>

definition register ::
  "security \<Rightarrow> string \<Rightarrow> User list \<Rightarrow> UserCreate \<Rightarrow> session \<Rightarrow> (exn + User) \<times> session" where
  "register sec new_id concurrent user_data db =
     (case scalar_one_or_none (filter (\<lambda>u. username u = username user_data) (store db)) of
        Inl e \<Rightarrow> (Inl e, db)
      | Inr (Some found) \<Rightarrow> (Inl (ConflictException ''Username already registered''), db)
      | Inr None \<Rightarrow>
          (case scalar_one_or_none (filter (\<lambda>u. email u = email user_data) (store db)) of
             Inl e \<Rightarrow> (Inl e, db)
           | Inr (Some found) \<Rightarrow> (Inl (ConflictException ''Email already registered''), db)
           | Inr None \<Rightarrow>
               let hashed = get_password_hash sec (password user_data);
                   new_user =
                     \<lparr>email = email user_data,
                      username = username user_data,
                      first_name = first_name user_data,
                      last_name = last_name user_data,
                      phone_number = phone_number user_data,
                      role = role user_data,
                      user_id = new_id,
                      hashed_password = hashed,
                      is_active = True\<rparr>
               in (case commit concurrent (add db new_user) of
                     (Inl e, db') \<Rightarrow> (Inl e, db')
                   | (Inr u, db') \<Rightarrow> (Inr new_user, db'))))"

text \<open>The object that \<^verbatim>\<open>register\<close> builds and adds to the session.\<close>

definition new_row :: "security \<Rightarrow> string \<Rightarrow> UserCreate \<Rightarrow> User" where
  "new_row sec new_id user_data =
     \<lparr>email = email user_data, username = username user_data,
      first_name = first_name user_data, last_name = last_name user_data,
      phone_number = phone_number user_data, role = role user_data,
      user_id = new_id,
      hashed_password = get_password_hash sec (password user_data),
      is_active = True\<rparr>"

text \<open>
  \<^verbatim>\<open>login\<close>.  The request body \<^verbatim>\<open>UserLogin\<close> has the fields \<^verbatim>\<open>username\<close> and
  \<^verbatim>\<open>password\<close>; they carry a prefix here because the names are taken by the
  columns above.
\<close>

record UserLogin =
  login_username :: string
  login_password :: string

definition login :: "security \<Rightarrow> UserLogin \<Rightarrow> session \<Rightarrow> (exn + Token) \<times> session" where
  "login sec credentials db =
     (case scalar_one_or_none
             (filter (\<lambda>u. username u = login_username credentials) (store db)) of
        Inl e \<Rightarrow> (Inl e, db)
      | Inr None \<Rightarrow> (Inl (UnauthorizedException ''Incorrect username or password''), db)
      | Inr (Some user) \<Rightarrow>
          if \<not> verify_password sec (login_password credentials) (hashed_password user)
          then (Inl (UnauthorizedException ''Incorrect username or password''), db)
          else if \<not> is_active user
          then (Inl (UnauthorizedException ''User account is deactivated''), db)
          else
            (Inr \<lparr>access_token = create_access_token sec [(''sub'', user_id user)],
                  refresh_token = create_refresh_token sec [(''sub'', user_id user)],
                  token_type = ''bearer''\<rparr>, db))"

text \<open>
  \<^verbatim>\<open>refresh_access_token\<close>; \<open>refresh_data\<close> is the one field of the request body
  \<^verbatim>\<open>RefreshTokenRequest\<close>.
\<close>

definition refresh_access_token ::
  "security \<Rightarrow> string \<Rightarrow> session \<Rightarrow> (exn + Token) \<times> session" where
  "refresh_access_token sec refresh_data db =
     (case decode_token sec refresh_data of
        None \<Rightarrow> (Inl (UnauthorizedException ''Invalid or expired refresh token''), db)
      | Some payload \<Rightarrow>
          if payload = empty_payload
          then (Inl (UnauthorizedException ''Invalid or expired refresh token''), db)
          else if \<not> verify_token_type payload ''refresh''
          then (Inl (UnauthorizedException ''Invalid token type''), db)
          else
            (case sub payload of
               None \<Rightarrow> (Inl (UnauthorizedException ''Invalid token payload''), db)
             | Some uid \<Rightarrow>
                 if uid = [] then (Inl (UnauthorizedException ''Invalid token payload''), db)
                 else
                   (case scalar_one_or_none (filter (\<lambda>u. user_id u = uid) (store db)) of
                      Inl e \<Rightarrow> (Inl e, db)
                    | Inr None \<Rightarrow>
                        (Inl (UnauthorizedException ''User not found or deactivated''), db)
                    | Inr (Some user) \<Rightarrow>
                        if \<not> is_active user
                        then (Inl (UnauthorizedException ''User not found or deactivated''), db)
                        else
                          (Inr \<lparr>access_token = create_access_token sec [(''sub'', user_id user)],
                                refresh_token = create_refresh_token sec [(''sub'', user_id user)],
                                token_type = ''bearer''\<rparr>, db))))"

text \<open>\<^verbatim>\<open>get_current_user_info\<close>, the handler of \<^verbatim>\<open>GET /auth/me\<close>.\<close>

definition get_current_user_info :: "User \<Rightarrow> exn + User" where
  "get_current_user_info current_user = Inr current_user"

section \<open>Token codec and password hasher, from the specification\<close>

text \<open>
  Modelled from the spec: the token codec of the absent \<^verbatim>\<open>app/utils/security.py\<close>
  (specification, section 4.2).  A token on the wire either does not parse
  (\<open>Malformed\<close>) or carries a claim set and a signature tag.  \<open>mac\<close> is the
  symmetric MAC scheme, \<open>secret\<close> the process secret, \<open>now\<close> the clock in
  seconds, \<open>ttl\<close> a duration.  \<open>issue\<close> "encodes a claim set {subject, expiry =
  now + ttl, type} and signs it with the process secret"; \<open>decode\<close> "verifies
  signature and expiry" and returns the explicit invalid result \<open>None\<close> "for
  malformed encoding, signature mismatch, expired timestamp, missing required
  claim"; a token is expired "once current time exceeds" its expiry.  The claim
  that decoding requires is the expiry: the authorization gate itself handles a
  missing subject or type.
\<close>

datatype token = Malformed string | Signed token_payload string

definition issue ::
  "(string \<Rightarrow> token_payload \<Rightarrow> string) \<Rightarrow> string \<Rightarrow> int \<Rightarrow> string \<Rightarrow> string \<Rightarrow> nat \<Rightarrow> token" where
  "issue mac secret now subject kind ttl =
     (let claims = \<lparr>sub = Some subject, exp = Some (now + int ttl), type = Some kind\<rparr>
      in Signed claims (mac secret claims))"

definition decode ::
  "(string \<Rightarrow> token_payload \<Rightarrow> string) \<Rightarrow> string \<Rightarrow> int \<Rightarrow> token \<Rightarrow> token_payload option" where
  "decode mac secret now tok =
     (case tok of
        Malformed raw \<Rightarrow> None
      | Signed claims tag \<Rightarrow>
          if tag \<noteq> mac secret claims then None
          else
            (case exp claims of
               None \<Rightarrow> None
             | Some expiry \<Rightarrow> if expiry < now then None else Some claims))"

text \<open>
  Modelled from the spec: the password hasher of the absent
  \<^verbatim>\<open>app/utils/security.py\<close> (specification, section 4.1).  A digest embeds its
  salt; \<open>kdf\<close> is the slow one-way function, and the salt that a call of
  \<open>hash\<close> draws at random is its second argument.  \<open>verify\<close> "returns true iff the
  plaintext, when hashed with the digest's embedded salt and parameters, equals
  the digest".
\<close>

record digest =
  salt :: string
  checksum :: string

definition hash :: "(string \<Rightarrow> string \<Rightarrow> string) \<Rightarrow> string \<Rightarrow> string \<Rightarrow> digest" where
  "hash kdf drawn_salt plaintext = \<lparr>salt = drawn_salt, checksum = kdf drawn_salt plaintext\<rparr>"

definition verify :: "(string \<Rightarrow> string \<Rightarrow> string) \<Rightarrow> string \<Rightarrow> digest \<Rightarrow> bool" where
  "verify kdf plaintext d \<longleftrightarrow> hash kdf (salt d) plaintext = d"

section \<open>A concrete instance\<close>

text \<open>
  One user, a session holding her row, and toy implementations of the security
  functions, on which the theorems below are evaluated.
\<close>

definition demo_user :: User where
  "demo_user = \<lparr>email = ''alice@x.com'', username = ''alice'', first_name = ''Alice'',
     last_name = ''Liddell'', phone_number = None, role = STAFF,
     user_id = ''id-alice'', hashed_password = ''salt$secret123'', is_active = True\<rparr>"

definition demo_session :: session where
  "demo_session = \<lparr>store = [demo_user], pending = []\<rparr>"

definition demo_security :: security where
  "demo_security =
     \<lparr>verify_password = (\<lambda>plain hashed. hashed = ''salt$'' @ plain),
      get_password_hash = (\<lambda>plain. ''salt$'' @ plain),
      create_access_token = (\<lambda>data. ''access:'' @ concat (map snd data)),
      create_refresh_token = (\<lambda>data. ''refresh:'' @ concat (map snd data)),
      decode_token = (\<lambda>t.
        if t = ''access:id-alice''
        then Some \<lparr>sub = Some ''id-alice'', exp = Some 100, type = Some ''access''\<rparr>
        else if t = ''refresh:id-alice''
        then Some \<lparr>sub = Some ''id-alice'', exp = Some 900, type = Some ''refresh''\<rparr>
        else None)\<rparr>"

definition demo_UUID :: "string \<Rightarrow> bool" where
  "demo_UUID s \<longleftrightarrow> take 3 s = ''id-''"

text \<open>Toy stand-ins for the MAC scheme and for the slow one-way function.\<close>

definition demo_mac :: "string \<Rightarrow> token_payload \<Rightarrow> string" where
  "demo_mac key claims =
     key @ ''|'' @ (case sub claims of None \<Rightarrow> [] | Some s \<Rightarrow> s)
         @ ''|'' @ (case type claims of None \<Rightarrow> [] | Some t \<Rightarrow> t)"

definition demo_kdf :: "string \<Rightarrow> string \<Rightarrow> string" where
  "demo_kdf drawn_salt plaintext = rev plaintext @ drawn_salt"

text \<open>
  A registration request for a second user, the same request under another
  email address, and the row that a concurrent registration of the same
  username commits.
\<close>

definition demo_create :: UserCreate where
  "demo_create = \<lparr>email = ''bob@x.com'', username = ''bob'', first_name = ''Bob'',
     last_name = ''Builder'', phone_number = None, role = STAFF, password = ''hunter22''\<rparr>"

definition demo_create_again :: UserCreate where
  "demo_create_again = \<lparr>email = ''robert@y.org'', username = ''bob'', first_name = ''Robert'',
     last_name = ''Builder'', phone_number = None, role = ADMIN, password = ''hunter23''\<rparr>"


section \<open>Lemmas on queries and strings\<close>

text \<open>A query on a unique column returns at most one row.\<close>

lemma filter_key_distinct:
  "distinct (map f xs) \<Longrightarrow> filter (\<lambda>x. f x = k) xs = (case find (\<lambda>x. f x = k) xs of None \<Rightarrow> [] | Some x \<Rightarrow> [x])"
proof (induction xs)
  case Nil
  then show ?case by simp
next
  case (Cons a xs)
  have none: "f a = k \<Longrightarrow> filter (\<lambda>x. f x = k) xs = []"
    using Cons.prems by (force simp: filter_empty_conv image_iff)
  show ?case using Cons none by (auto split: option.splits)
qed

lemma scalar_unique:
  "distinct (map f xs) \<Longrightarrow>
   scalar_one_or_none (filter (\<lambda>x. f x = k) xs) = Inr (find (\<lambda>x. f x = k) xs)"
  by (simp add: filter_key_distinct split: option.splits)

lemma find_key_Some:
  "distinct (map f xs) \<Longrightarrow> find (\<lambda>x. f x = k) xs = Some u \<longleftrightarrow> u \<in> set xs \<and> f u = k"
proof (induction xs)
  case Nil
  then show ?case by simp
next
  case (Cons a xs)
  then show ?case by (auto simp: image_iff)
qed

lemma find_key_None: "find (\<lambda>x. f x = k) xs = None \<longleftrightarrow> (\<forall>u \<in> set xs. f u \<noteq> k)"
  by (auto simp: find_None_iff)

text \<open>\<open>contains\<close> is the substring relation, and \<open>replace\<close> leaves a string without an occurrence as it is.\<close>

lemma contains_iff: "contains s p \<longleftrightarrow> (\<exists>xs ys. s = xs @ p @ ys)"
proof (induction s)
  case Nil
  then show ?case by simp
next
  case (Cons c cs)
  have "take (length p) (c # cs) = p \<longleftrightarrow> (\<exists>ys. c # cs = p @ ys)"
    by (metis append_eq_conv_conj append_take_drop_id)
  moreover have "(\<exists>xs ys. c # cs = xs @ p @ ys) \<longleftrightarrow> (\<exists>ys. c # cs = p @ ys) \<or> (\<exists>xs ys. cs = xs @ p @ ys)"
  proof
    assume "\<exists>xs ys. c # cs = xs @ p @ ys"
    then obtain xs ys where e: "c # cs = xs @ p @ ys" by blast
    show "(\<exists>ys. c # cs = p @ ys) \<or> (\<exists>xs ys. cs = xs @ p @ ys)"
    proof (cases xs)
      case Nil
      with e show ?thesis by auto
    next
      case (Cons x xs')
      with e have "cs = xs' @ p @ ys" by simp
      then show ?thesis by blast
    qed
  next
    assume "(\<exists>ys. c # cs = p @ ys) \<or> (\<exists>xs ys. cs = xs @ p @ ys)"
    then show "\<exists>xs ys. c # cs = xs @ p @ ys"
    proof
      assume "\<exists>ys. c # cs = p @ ys"
      then obtain ys where "c # cs = [] @ p @ ys" by auto
      then show ?thesis by blast
    next
      assume "\<exists>xs ys. cs = xs @ p @ ys"
      then obtain xs ys where "c # cs = (c # xs) @ p @ ys" by auto
      then show ?thesis by blast
    qed
  qed
  ultimately show ?case using Cons.IH by simp
qed

lemma replace_absent: "old \<noteq> [] \<Longrightarrow> \<not> contains s old \<Longrightarrow> replace s old new = s"
  by (induction s) auto

lemma replace_prefix: "old \<noteq> [] \<Longrightarrow> replace (old @ t) old new = new @ replace t old new"
proof -
  assume ne: "old \<noteq> []"
  then obtain c cs where e: "old @ t = c # cs" by (cases old) auto
  have "take (length old) (c # cs) = old" "drop (length old) (c # cs) = t"
    unfolding e [symmetric] by simp_all
  then have "replace (c # cs) old new = new @ replace t old new"
    using ne by simp
  then show ?thesis by (simp only: e)
qed

section \<open>Authorization gate\<close>

lemma gcu_error_not_forbidden:
  "get_current_user sec UUID db authorization = Inl e \<Longrightarrow> http_status e \<noteq> 403"
  by (auto simp: get_current_user_def UnauthorizedException_def Let_def
      split: option.splits if_splits sum.splits list.splits
      elim!: scalar_one_or_none.elims)

text \<open>
  C6.  \<^verbatim>\<open>require_admin\<close> fails with Forbidden (403, which is not the 401 of
  Unauthorized) exactly when the principal's role is not admin, and returns the
  principal unchanged when it is.  In the chain \<^verbatim>\<open>Depends(get_current_user)\<close> a
  failure of the authentication is the outcome as it is and never has status 403:
  a 403 means that a principal was established and is not an admin.
\<close>

theorem require_admin_forbidden:
  "(require_admin current_user = Inl (ForbiddenException ''Admin access required'')
      \<longleftrightarrow> role current_user \<noteq> ADMIN) \<and>
   (role current_user = ADMIN \<longrightarrow> require_admin current_user = Inr current_user) \<and>
   http_status (ForbiddenException d) = 403 \<and>
   http_status (UnauthorizedException d) = 401 \<and>
   (\<forall>e. get_current_user sec UUID db authorization = Inl e \<longrightarrow>
        Depends (get_current_user sec UUID db authorization) require_admin = Inl e \<and>
        http_status e \<noteq> 403) \<and>
   (\<forall>e. Depends (get_current_user sec UUID db authorization) require_admin = Inl e \<and>
        http_status e = 403 \<longrightarrow>
        (\<exists>u. get_current_user sec UUID db authorization = Inr u \<and> role u \<noteq> ADMIN))"
proof -
  have a: "require_admin current_user = Inl (ForbiddenException ''Admin access required'')
      \<longleftrightarrow> role current_user \<noteq> ADMIN"
    by (simp add: require_admin_def)
  have b: "role current_user = ADMIN \<longrightarrow> require_admin current_user = Inr current_user"
    by (simp add: require_admin_def)
  have c: "http_status (ForbiddenException d) = 403" "http_status (UnauthorizedException d) = 401"
    by (simp_all add: ForbiddenException_def UnauthorizedException_def)
  have d: "\<forall>e. get_current_user sec UUID db authorization = Inl e \<longrightarrow>
        Depends (get_current_user sec UUID db authorization) require_admin = Inl e \<and>
        http_status e \<noteq> 403"
    using gcu_error_not_forbidden by (simp add: Depends_def)
  have e: "\<forall>e. Depends (get_current_user sec UUID db authorization) require_admin = Inl e \<and>
        http_status e = 403 \<longrightarrow>
        (\<exists>u. get_current_user sec UUID db authorization = Inr u \<and> role u \<noteq> ADMIN)"
  proof (cases "get_current_user sec UUID db authorization")
    case (Inl x)
    then show ?thesis using gcu_error_not_forbidden [OF Inl] by (simp add: Depends_def)
  next
    case (Inr u)
    then show ?thesis by (auto simp: Depends_def require_admin_def split: if_splits)
  qed
  show ?thesis using a b c d e by blast
qed

lemma demo_gcu: "get_current_user demo_security demo_UUID demo_session (Some ''Bearer access:id-alice'') = Inr demo_user"
  by (simp add: get_current_user_def demo_security_def demo_UUID_def demo_session_def
      demo_user_def startswith_def verify_token_type_def empty_payload_def)

theorem require_admin_forbidden_witness:
  "role demo_user \<noteq> ADMIN \<and>
   require_admin demo_user = Inl (ForbiddenException ''Admin access required'') \<and>
   get_current_user demo_security demo_UUID demo_session None
     = Inl (UnauthorizedException ''Missing or invalid authorization header'') \<and>
   Depends (get_current_user demo_security demo_UUID demo_session None) require_admin
     = Inl (UnauthorizedException ''Missing or invalid authorization header'')"
proof -
  have r: "role demo_user \<noteq> ADMIN" by (simp add: demo_user_def)
  have g: "get_current_user demo_security demo_UUID demo_session None
     = Inl (UnauthorizedException ''Missing or invalid authorization header'')"
    by (simp add: get_current_user_def)
  show ?thesis
    using r g require_admin_forbidden [of demo_user _ demo_security demo_UUID demo_session None]
    by simp
qed

lemma lookup_by_id:
  assumes "distinct (map user_id rows)"
  shows "scalar_one_or_none (filter (\<lambda>u. user_id u = uid) rows) = Inr None
           \<longleftrightarrow> \<not> (\<exists>u \<in> set rows. user_id u = uid)"
    and "scalar_one_or_none (filter (\<lambda>u. user_id u = uid) rows) = Inr (Some v)
           \<longleftrightarrow> v \<in> set rows \<and> user_id v = uid"
    and "scalar_one_or_none (filter (\<lambda>u. user_id u = uid) rows) \<noteq> Inl e"
  using assms by (auto simp: scalar_unique find_key_Some find_key_None)

lemma UnauthorizedException_inject:
  "UnauthorizedException d = UnauthorizedException d' \<longleftrightarrow> d = d'"
  by (simp add: UnauthorizedException_def)

text \<open>
  C1.  On a table whose primary key is unique, and since the empty string is not
  a UUID, \<^verbatim>\<open>get_current_user\<close> fails with Unauthorized exactly when the header
  is absent or does not start with \<^verbatim>\<open>"Bearer "\<close>, or \<^verbatim>\<open>decode_token\<close> yields no
  payload, or the type claim is not \<^verbatim>\<open>"access"\<close>, or the \<^verbatim>\<open>sub\<close> claim is missing
  or not a well-formed UUID, or no active user row has that id; in every other
  case it returns the user row with that id.
\<close>

theorem get_current_user_outcome:
  assumes "distinct (map user_id (store db))" and "\<not> UUID []"
  shows
  "((\<exists>d. get_current_user sec UUID db authorization = Inl (UnauthorizedException d)) \<longleftrightarrow>
     (authorization = None \<or>
      (\<exists>a. authorization = Some a \<and>
         (\<not> startswith a ''Bearer '' \<or>
          decode_token sec (replace a ''Bearer '' []) = None \<or>
          (\<exists>payload. decode_token sec (replace a ''Bearer '' []) = Some payload \<and>
             (type payload \<noteq> Some ''access'' \<or> sub payload = None \<or>
              (\<exists>uid. sub payload = Some uid \<and>
                 (\<not> UUID uid \<or>
                  \<not> (\<exists>u \<in> set (store db). user_id u = uid \<and> is_active u)))))))))
   \<and>
   ((\<nexists>d. get_current_user sec UUID db authorization = Inl (UnauthorizedException d)) \<longrightarrow>
     (\<exists>a payload u. authorization = Some a \<and>
        decode_token sec (replace a ''Bearer '' []) = Some payload \<and>
        u \<in> set (store db) \<and> sub payload = Some (user_id u) \<and> is_active u \<and>
        get_current_user sec UUID db authorization = Inr u))"
proof (cases authorization)
  case None
  then show ?thesis by (simp add: UnauthorizedException_inject get_current_user_def)
next
  case (Some a)
  note auth = Some
  show ?thesis
  proof (cases "startswith a ''Bearer ''")
    case False
    then show ?thesis using auth by (simp add: UnauthorizedException_inject get_current_user_def)
  next
    case True
    then have ne: "a \<noteq> []" by (auto simp: startswith_def)
    show ?thesis
    proof (cases "decode_token sec (replace a ''Bearer '' [])")
      case None
      then show ?thesis using auth True ne by (simp add: UnauthorizedException_inject get_current_user_def)
    next
      case (Some payload)
      note dec = Some
      show ?thesis
      proof (cases "type payload = Some ''access''")
        case False
        then show ?thesis using auth True ne dec
          by (simp add: UnauthorizedException_inject get_current_user_def verify_token_type_def)
      next
        case acc: True
        then have nonempty: "payload \<noteq> empty_payload" by (auto simp: empty_payload_def)
        show ?thesis
        proof (cases "sub payload")
          case None
          then show ?thesis using auth True ne dec acc nonempty
            by (simp add: UnauthorizedException_inject get_current_user_def verify_token_type_def)
        next
          case (Some uid)
          note s = Some
          show ?thesis
          proof (cases "UUID uid")
            case False
            then show ?thesis using auth True ne dec acc nonempty s
              by (simp add: UnauthorizedException_inject get_current_user_def verify_token_type_def)
          next
            case u: True
            then have uid_ne: "uid \<noteq> []" using assms(2) by auto
            show ?thesis
            proof (cases "scalar_one_or_none (filter (\<lambda>u. user_id u = uid) (store db))")
              case (Inl e)
              then show ?thesis using lookup_by_id(3) [OF assms(1)] by blast
            next
              case (Inr found)
              show ?thesis
              proof (cases found)
                case None
                then have "\<not> (\<exists>u \<in> set (store db). user_id u = uid)"
                  using Inr lookup_by_id(1) [OF assms(1)] by simp
                then show ?thesis using auth True ne dec acc nonempty s u uid_ne Inr None
                  by (auto simp: UnauthorizedException_inject get_current_user_def verify_token_type_def)
              next
                case (Some user)
                then have m: "user \<in> set (store db)" "user_id user = uid"
                  using Inr lookup_by_id(2) [OF assms(1)] by simp_all
                have only: "\<And>v. v \<in> set (store db) \<Longrightarrow> user_id v = uid \<Longrightarrow> v = user"
                  using m assms(1) by (metis distinct_map inj_onD)
                show ?thesis
                proof (cases "is_active user")
                  case True
                  then show ?thesis using auth \<open>startswith a ''Bearer ''\<close> ne dec acc nonempty s u uid_ne Inr Some m
                    by (auto simp: UnauthorizedException_inject get_current_user_def verify_token_type_def)
                next
                  case False
                  then have "\<not> (\<exists>u \<in> set (store db). user_id u = uid \<and> is_active u)"
                    using only by blast
                  then show ?thesis using False auth \<open>startswith a ''Bearer ''\<close> ne dec acc nonempty s u uid_ne Inr Some
                    by (auto simp: UnauthorizedException_inject get_current_user_def verify_token_type_def)
                qed
              qed
            qed
          qed
        qed
      qed
    qed
  qed
qed

theorem get_current_user_outcome_witness:
  "distinct (map user_id (store demo_session)) \<and> \<not> demo_UUID [] \<and>
   (\<nexists>d. get_current_user demo_security demo_UUID demo_session
          (Some ''Bearer access:id-alice'') = Inl (UnauthorizedException d)) \<and>
   get_current_user demo_security demo_UUID demo_session
          (Some ''Bearer access:id-alice'') = Inr demo_user"
proof -
  have h1: "distinct (map user_id (store demo_session))" by (simp add: demo_session_def)
  have h2: "\<not> demo_UUID []" by (simp add: demo_UUID_def)
  show ?thesis
    using h1 h2 demo_gcu
      get_current_user_outcome [where db = demo_session and UUID = demo_UUID
        and sec = demo_security and authorization = "Some ''Bearer access:id-alice''"]
    by simp
qed

text \<open>
  C5.  Access and refresh tokens are not interchangeable.  A header whose token
  decodes to a payload of type \<^verbatim>\<open>"refresh"\<close> is rejected with Unauthorized by
  \<^verbatim>\<open>get_current_user\<close>, so \<^verbatim>\<open>GET /auth/me\<close> answers 401; a token that decodes to
  a payload of type \<^verbatim>\<open>"access"\<close> is rejected with Unauthorized (401) by the
  refresh endpoint.
\<close>

theorem token_types_not_interchangeable:
  "(decode_token sec (replace a ''Bearer '' []) = Some payload \<and> type payload = Some ''refresh''
      \<longrightarrow> (\<exists>d. get_current_user sec UUID db (Some a) = Inl (UnauthorizedException d) \<and>
               Depends (get_current_user sec UUID db (Some a)) get_current_user_info
                 = Inl (UnauthorizedException d) \<and>
               http_status (UnauthorizedException d) = 401)) \<and>
   (decode_token sec refresh_data = Some payload' \<and> type payload' = Some ''access''
      \<longrightarrow> refresh_access_token sec refresh_data db
            = (Inl (UnauthorizedException ''Invalid token type''), db) \<and>
          http_status (UnauthorizedException ''Invalid token type'') = 401)"
proof -
  have ne: "type p = Some x \<Longrightarrow> p \<noteq> empty_payload" for p :: token_payload and x
    by (auto simp: empty_payload_def)
  have st: "http_status (UnauthorizedException d) = 401" for d
    by (simp add: UnauthorizedException_def)
  have a: "decode_token sec (replace a ''Bearer '' []) = Some payload \<Longrightarrow>
           type payload = Some ''refresh'' \<Longrightarrow>
           \<exists>d. get_current_user sec UUID db (Some a) = Inl (UnauthorizedException d)"
    using ne [of payload] by (auto simp: get_current_user_def verify_token_type_def)
  have b: "decode_token sec refresh_data = Some payload' \<Longrightarrow> type payload' = Some ''access'' \<Longrightarrow>
           refresh_access_token sec refresh_data db
             = (Inl (UnauthorizedException ''Invalid token type''), db)"
    using ne [of payload'] by (simp add: refresh_access_token_def verify_token_type_def)
  have a': "decode_token sec (replace a ''Bearer '' []) = Some payload \<and>
            type payload = Some ''refresh'' \<longrightarrow>
        (\<exists>d. get_current_user sec UUID db (Some a) = Inl (UnauthorizedException d) \<and>
               Depends (get_current_user sec UUID db (Some a)) get_current_user_info
                 = Inl (UnauthorizedException d) \<and>
               http_status (UnauthorizedException d) = 401)"
  proof
    assume h: "decode_token sec (replace a ''Bearer '' []) = Some payload \<and>
            type payload = Some ''refresh''"
    then obtain d where d: "get_current_user sec UUID db (Some a) = Inl (UnauthorizedException d)"
      using a by blast
    then have "Depends (get_current_user sec UUID db (Some a)) get_current_user_info
                 = Inl (UnauthorizedException d)"
      by (simp add: Depends_def)
    with d st [of d] show "\<exists>d. get_current_user sec UUID db (Some a) = Inl (UnauthorizedException d) \<and>
               Depends (get_current_user sec UUID db (Some a)) get_current_user_info
                 = Inl (UnauthorizedException d) \<and>
               http_status (UnauthorizedException d) = 401"
      by blast
  qed
  show ?thesis using a' b st by blast
qed

theorem token_types_not_interchangeable_witness:
  "decode_token demo_security (replace ''Bearer refresh:id-alice'' ''Bearer '' [])
     = Some \<lparr>sub = Some ''id-alice'', exp = Some 900, type = Some ''refresh''\<rparr> \<and>
   decode_token demo_security ''access:id-alice''
     = Some \<lparr>sub = Some ''id-alice'', exp = Some 100, type = Some ''access''\<rparr> \<and>
   (\<exists>d. get_current_user demo_security demo_UUID demo_session (Some ''Bearer refresh:id-alice'')
        = Inl (UnauthorizedException d)) \<and>
   refresh_access_token demo_security ''access:id-alice'' demo_session
     = (Inl (UnauthorizedException ''Invalid token type''), demo_session)"
proof -
  have h1: "decode_token demo_security (replace ''Bearer refresh:id-alice'' ''Bearer '' [])
     = Some \<lparr>sub = Some ''id-alice'', exp = Some 900, type = Some ''refresh''\<rparr>"
    by (simp add: demo_security_def)
  have h2: "decode_token demo_security ''access:id-alice''
     = Some \<lparr>sub = Some ''id-alice'', exp = Some 100, type = Some ''access''\<rparr>"
    by (simp add: demo_security_def)
  show ?thesis
    using h1 h2
      token_types_not_interchangeable [of demo_security "''Bearer refresh:id-alice''"
        "\<lparr>sub = Some ''id-alice'', exp = Some 900, type = Some ''refresh''\<rparr>"
        demo_UUID demo_session "''access:id-alice''"
        "\<lparr>sub = Some ''id-alice'', exp = Some 100, type = Some ''access''\<rparr>"]
    by auto
qed

lemma length_replace_le: "length (replace s old []) \<le> length s"
proof (induction s old "[] :: string" rule: replace.induct)
  case (1 old)
  then show ?case by simp
next
  case (2 c cs old)
  then show ?case by (auto simp: le_SucI intro: order_trans [OF _ diff_le_self])
qed

lemma replace_shrinks:
  "old \<noteq> [] \<Longrightarrow> contains s old \<Longrightarrow> length (replace s old []) < length s"
proof (induction s)
  case Nil
  then show ?case by simp
next
  case (Cons c cs)
  show ?case
  proof (cases "take (length old) (c # cs) = old")
    case True
    have "length (replace (drop (length old) (c # cs)) old []) \<le> length (drop (length old) (c # cs))"
      by (rule length_replace_le)
    also have "\<dots> < length (c # cs)" using Cons.prems(1) by simp
    finally show ?thesis using True Cons.prems(1) by simp
  next
    case False
    then show ?thesis using Cons by auto
  qed
qed

lemma gcu_bearer_undecodable:
  assumes "startswith a ''Bearer ''"
    and "decode_token sec (replace a ''Bearer '' []) = None"
  shows "get_current_user sec UUID db (Some a)
           = Inl (UnauthorizedException ''Invalid or expired token'')"
proof -
  have "a \<noteq> []" using assms(1) by (auto simp: startswith_def)
  then show ?thesis using assms by (simp add: get_current_user_def)
qed

lemma gcu_bearer_wrong_type:
  assumes "startswith a ''Bearer ''"
    and "decode_token sec (replace a ''Bearer '' []) = Some payload"
    and "payload \<noteq> empty_payload"
    and "type payload \<noteq> Some ''access''"
  shows "get_current_user sec UUID db (Some a)
           = Inl (UnauthorizedException ''Invalid token type'')"
proof -
  have "a \<noteq> []" using assms(1) by (auto simp: startswith_def)
  then show ?thesis using assms by (simp add: get_current_user_def verify_token_type_def)
qed

lemma gcu_bearer_resolves:
  assumes "startswith a ''Bearer ''"
    and "decode_token sec (replace a ''Bearer '' []) = Some payload"
    and "type payload = Some ''access''"
    and "sub payload = Some (user_id u)"
    and "user_id u \<noteq> []" and "UUID (user_id u)"
    and "distinct (map user_id (store db))" and "u \<in> set (store db)" and "is_active u"
  shows "get_current_user sec UUID db (Some a) = Inr u"
proof -
  have ne: "a \<noteq> []" using assms(1) by (auto simp: startswith_def)
  have pe: "payload \<noteq> empty_payload" using assms(3) by (auto simp: empty_payload_def)
  have row: "scalar_one_or_none (filter (\<lambda>v. user_id v = user_id u) (store db)) = Inr (Some u)"
    using lookup_by_id(2) [OF assms(7), of "user_id u" u] assms(8) by simp
  show ?thesis
    using ne pe row assms(1-6,9)
    by (simp add: get_current_user_def verify_token_type_def)
qed

text \<open>
  C10.  The string that \<^verbatim>\<open>get_current_user\<close> hands to \<^verbatim>\<open>decode_token\<close> for the
  header \<^verbatim>\<open>"Bearer " + t\<close> is \<open>t\<close> with every occurrence of \<^verbatim>\<open>"Bearer "\<close> removed:
  it is \<open>t\<close> itself when \<^verbatim>\<open>"Bearer "\<close> does not occur in \<open>t\<close>, and differs from
  \<open>t\<close> when it does, as for \<^verbatim>\<open>t = "Bearer x"\<close>, which is decoded as \<^verbatim>\<open>"x"\<close>.  The
  outcome is decided by \<^verbatim>\<open>decode_token\<close> at that string: no payload there is
  the failure "Invalid or expired token", a payload of another type there is
  "Invalid token type", and an access payload there that names an active user
  returns that user.  So the header \<^verbatim>\<open>"Bearer Bearer access:id-alice"\<close> is
  accepted, although the token after the scheme prefix does not decode.
\<close>

theorem bearer_extraction_replaces_every_occurrence:
  "(\<not> contains t ''Bearer '' \<longrightarrow> replace (''Bearer '' @ t) ''Bearer '' [] = t) \<and>
   (contains t ''Bearer '' \<longrightarrow> replace (''Bearer '' @ t) ''Bearer '' [] \<noteq> t) \<and>
   contains ''Bearer x'' ''Bearer '' \<and>
   replace (''Bearer '' @ ''Bearer x'') ''Bearer '' [] = ''x'' \<and>
   get_current_user sec UUID db (Some (''Bearer '' @ t))
     = get_current_user (sec\<lparr>decode_token := \<lambda>x. decode_token sec (replace t ''Bearer '' [])\<rparr>)
         UUID db (Some (''Bearer '' @ t)) \<and>
   (decode_token sec (replace t ''Bearer '' []) = None \<longrightarrow>
      get_current_user sec UUID db (Some (''Bearer '' @ t))
        = Inl (UnauthorizedException ''Invalid or expired token'')) \<and>
   (decode_token sec (replace t ''Bearer '' []) = Some payload \<and>
    payload \<noteq> empty_payload \<and> type payload \<noteq> Some ''access'' \<longrightarrow>
      get_current_user sec UUID db (Some (''Bearer '' @ t))
        = Inl (UnauthorizedException ''Invalid token type'')) \<and>
   (decode_token sec (replace t ''Bearer '' []) = Some payload \<and>
    type payload = Some ''access'' \<and> sub payload = Some (user_id u) \<and>
    user_id u \<noteq> [] \<and> UUID (user_id u) \<and>
    distinct (map user_id (store db)) \<and> u \<in> set (store db) \<and> is_active u \<longrightarrow>
      get_current_user sec UUID db (Some (''Bearer '' @ t)) = Inr u) \<and>
   decode_token demo_security ''Bearer access:id-alice'' = None \<and>
   get_current_user demo_security demo_UUID demo_session
       (Some (''Bearer '' @ ''Bearer access:id-alice'')) = Inr demo_user"
  (is "?A \<and> ?B \<and> ?C \<and> ?D \<and> ?E \<and> ?F \<and> ?G \<and> ?H \<and> ?I \<and> ?J")
proof -
  have p: "replace (''Bearer '' @ t) ''Bearer '' [] = replace t ''Bearer '' []" for t
    using replace_prefix [of "''Bearer ''" t "[]"] by simp
  have s: "startswith (''Bearer '' @ t) ''Bearer ''" for t
    by (simp add: startswith_def)
  have a: ?A
    using replace_absent [of "''Bearer ''" t "[]"] by (simp only: p) simp
  have b: ?B
    using replace_shrinks [of "''Bearer ''" t] by (simp only: p) auto
  have c: ?C by simp
  have d: ?D by simp
  have e: ?E
  proof -
    have g: "get_current_user sec UUID db (Some a)
       = get_current_user (sec\<lparr>decode_token := \<lambda>x. decode_token sec (replace a ''Bearer '' [])\<rparr>)
           UUID db (Some a)" for a
      by (simp add: get_current_user_def)
    show ?thesis using g [of "''Bearer '' @ t"] by (simp only: p)
  qed
  have f: ?F
    using gcu_bearer_undecodable [OF s, of sec t UUID db] by (simp only: p) blast
  have g: ?G
    using gcu_bearer_wrong_type [OF s, of sec t payload UUID db] by (simp only: p) blast
  have h: ?H
    using gcu_bearer_resolves [OF s, of sec t payload u UUID db] by (simp only: p) blast
  have i: ?I by (simp add: demo_security_def)
  have j: ?J
  proof -
    have "replace (''Bearer '' @ ''Bearer access:id-alice'') ''Bearer '' [] = ''access:id-alice''"
      by simp
    then have dec: "decode_token demo_security
        (replace (''Bearer '' @ ''Bearer access:id-alice'') ''Bearer '' [])
      = Some \<lparr>sub = Some ''id-alice'', exp = Some 100, type = Some ''access''\<rparr>"
      by (simp add: demo_security_def)
    have ty: "type \<lparr>sub = Some ''id-alice'', exp = Some 100, type = Some ''access''\<rparr>
        = Some ''access''"
      by simp
    have su: "sub \<lparr>sub = Some ''id-alice'', exp = Some 100, type = Some ''access''\<rparr>
        = Some (user_id demo_user)"
      by (simp add: demo_user_def)
    have id: "user_id demo_user \<noteq> []" "demo_UUID (user_id demo_user)"
      by (simp_all add: demo_user_def demo_UUID_def)
    have st: "distinct (map user_id (store demo_session))"
      "demo_user \<in> set (store demo_session)" "is_active demo_user"
      by (simp_all add: demo_session_def demo_user_def)
    show ?thesis
      using s [of "''Bearer access:id-alice''"] dec ty su id st
        gcu_bearer_resolves [where a = "''Bearer '' @ ''Bearer access:id-alice''"
          and sec = demo_security and UUID = demo_UUID and db = demo_session and u = demo_user
          and payload = "\<lparr>sub = Some ''id-alice'', exp = Some 100, type = Some ''access''\<rparr>"]
      by blast
  qed
  show ?thesis using a b c d e f g h i j by blast
qed

theorem bearer_extraction_replaces_every_occurrence_witness:
  "\<not> contains ''access:id-alice'' ''Bearer '' \<and>
   replace (''Bearer '' @ ''access:id-alice'') ''Bearer '' [] = ''access:id-alice'' \<and>
   contains ''Bearer access:id-alice'' ''Bearer '' \<and>
   replace (''Bearer '' @ ''Bearer access:id-alice'') ''Bearer '' [] \<noteq> ''Bearer access:id-alice'' \<and>
   decode_token demo_security (replace ''garbage'' ''Bearer '' []) = None \<and>
   get_current_user demo_security demo_UUID demo_session (Some (''Bearer '' @ ''garbage''))
     = Inl (UnauthorizedException ''Invalid or expired token'') \<and>
   decode_token demo_security (replace ''refresh:id-alice'' ''Bearer '' [])
     = Some \<lparr>sub = Some ''id-alice'', exp = Some 900, type = Some ''refresh''\<rparr> \<and>
   get_current_user demo_security demo_UUID demo_session (Some (''Bearer '' @ ''refresh:id-alice''))
     = Inl (UnauthorizedException ''Invalid token type'') \<and>
   decode_token demo_security (replace ''Bearer access:id-alice'' ''Bearer '' [])
     = Some \<lparr>sub = Some ''id-alice'', exp = Some 100, type = Some ''access''\<rparr> \<and>
   distinct (map user_id (store demo_session)) \<and> demo_user \<in> set (store demo_session) \<and>
   is_active demo_user \<and> user_id demo_user = ''id-alice'' \<and> demo_UUID ''id-alice'' \<and>
   get_current_user demo_security demo_UUID demo_session
       (Some (''Bearer '' @ ''Bearer access:id-alice'')) = Inr demo_user"
proof -
  have h1: "\<not> contains ''access:id-alice'' ''Bearer ''" by simp
  have h2: "contains ''Bearer access:id-alice'' ''Bearer ''" by simp
  have h3: "decode_token demo_security (replace ''garbage'' ''Bearer '' []) = None"
    by (simp add: demo_security_def)
  have h4: "decode_token demo_security (replace ''refresh:id-alice'' ''Bearer '' [])
     = Some \<lparr>sub = Some ''id-alice'', exp = Some 900, type = Some ''refresh''\<rparr>"
    by (simp add: demo_security_def)
  have h5: "\<lparr>sub = Some ''id-alice'', exp = Some 900, type = Some ''refresh''\<rparr> \<noteq> empty_payload"
    "type \<lparr>sub = Some ''id-alice'', exp = Some 900, type = Some ''refresh''\<rparr> \<noteq> Some ''access''"
    by (simp_all add: empty_payload_def)
  have h6: "decode_token demo_security (replace ''Bearer access:id-alice'' ''Bearer '' [])
     = Some \<lparr>sub = Some ''id-alice'', exp = Some 100, type = Some ''access''\<rparr>"
    by (simp add: demo_security_def)
  have h7: "distinct (map user_id (store demo_session))" "demo_user \<in> set (store demo_session)"
    "is_active demo_user" "user_id demo_user = ''id-alice''" "demo_UUID ''id-alice''"
    by (simp_all add: demo_session_def demo_user_def demo_UUID_def)
  have t1: "replace (''Bearer '' @ ''access:id-alice'') ''Bearer '' [] = ''access:id-alice''"
    using h1 bearer_extraction_replaces_every_occurrence [where t = "''access:id-alice''"] by blast
  have t2: "replace (''Bearer '' @ ''Bearer access:id-alice'') ''Bearer '' []
      \<noteq> ''Bearer access:id-alice''"
    using h2 bearer_extraction_replaces_every_occurrence [where t = "''Bearer access:id-alice''"] by blast
  have t3: "get_current_user demo_security demo_UUID demo_session (Some (''Bearer '' @ ''garbage''))
     = Inl (UnauthorizedException ''Invalid or expired token'')"
    using h3 bearer_extraction_replaces_every_occurrence [where t = "''garbage''" and sec = demo_security and UUID = demo_UUID
        and db = demo_session] by blast
  have t4: "get_current_user demo_security demo_UUID demo_session
       (Some (''Bearer '' @ ''refresh:id-alice''))
     = Inl (UnauthorizedException ''Invalid token type'')"
    using h4 h5 bearer_extraction_replaces_every_occurrence [where t = "''refresh:id-alice''" and sec = demo_security
        and UUID = demo_UUID and db = demo_session
        and payload = "\<lparr>sub = Some ''id-alice'', exp = Some 900, type = Some ''refresh''\<rparr>"]
    by blast
  have t5: "get_current_user demo_security demo_UUID demo_session
       (Some (''Bearer '' @ ''Bearer access:id-alice'')) = Inr demo_user"
  proof -
    have ty: "type \<lparr>sub = Some ''id-alice'', exp = Some 100, type = Some ''access''\<rparr>
        = Some ''access''"
      "sub \<lparr>sub = Some ''id-alice'', exp = Some 100, type = Some ''access''\<rparr>
        = Some (user_id demo_user)"
      "user_id demo_user \<noteq> []" "demo_UUID (user_id demo_user)"
      by (simp_all add: demo_user_def demo_UUID_def)
    show ?thesis
      using h6 h7(1-3) ty
        bearer_extraction_replaces_every_occurrence [where t = "''Bearer access:id-alice''" and sec = demo_security
          and UUID = demo_UUID and db = demo_session and u = demo_user
          and payload = "\<lparr>sub = Some ''id-alice'', exp = Some 100, type = Some ''access''\<rparr>"]
      by blast
  qed
  show ?thesis using h1 h2 h3 h4 h6 h7 t1 t2 t3 t4 t5 by blast
qed

section \<open>Login and refresh\<close>

lemma lookup_by_username:
  assumes "distinct (map username rows)"
  shows "scalar_one_or_none (filter (\<lambda>u. username u = n) rows) = Inr None
           \<longleftrightarrow> \<not> (\<exists>u \<in> set rows. username u = n)"
    and "scalar_one_or_none (filter (\<lambda>u. username u = n) rows) = Inr (Some v)
           \<longleftrightarrow> v \<in> set rows \<and> username v = n"
    and "scalar_one_or_none (filter (\<lambda>u. username u = n) rows) \<noteq> Inl e"
  using assms by (auto simp: scalar_unique find_key_Some find_key_None)

lemma unique_row:
  "distinct (map f rows) \<Longrightarrow> u \<in> set rows \<Longrightarrow> v \<in> set rows \<Longrightarrow> f u = f v \<Longrightarrow> u = v"
  by (metis distinct_map inj_onD)

text \<open>
  C2.  On a table whose \<^verbatim>\<open>username\<close> column is unique, \<^verbatim>\<open>login\<close> fails with
  Unauthorized exactly when no user has the username, or the password does not
  verify against the stored hash, or the user is not active; otherwise it returns
  the access and refresh tokens minted for the claim \<^verbatim>\<open>sub\<close> = that user's id.  The
  session is returned as it was.
\<close>

theorem login_outcome:
  assumes "distinct (map username (store db))"
  shows
  "((\<exists>d. login sec credentials db = (Inl (UnauthorizedException d), db)) \<longleftrightarrow>
      ((\<forall>u \<in> set (store db). username u \<noteq> login_username credentials) \<or>
       (\<exists>u \<in> set (store db). username u = login_username credentials \<and>
          \<not> verify_password sec (login_password credentials) (hashed_password u)) \<or>
       (\<exists>u \<in> set (store db). username u = login_username credentials \<and> \<not> is_active u)))
   \<and>
   (\<forall>u \<in> set (store db).
      username u = login_username credentials \<and>
      verify_password sec (login_password credentials) (hashed_password u) \<and> is_active u \<longrightarrow>
      login sec credentials db =
        (Inr \<lparr>access_token = create_access_token sec [(''sub'', user_id u)],
              refresh_token = create_refresh_token sec [(''sub'', user_id u)],
              token_type = ''bearer''\<rparr>, db))"
  (is "(?fails \<longleftrightarrow> ?absent \<or> ?mismatch \<or> ?inactive) \<and> ?success")
proof (cases "scalar_one_or_none
        (filter (\<lambda>u. username u = login_username credentials) (store db))")
  case (Inl e)
  then show ?thesis using lookup_by_username(3) [OF assms] by blast
next
  case (Inr found)
  show ?thesis
  proof (cases found)
    case None
    have absent: ?absent
      using Inr None lookup_by_username(1) [OF assms, of "login_username credentials"] by blast
    have "login sec credentials db =
        (Inl (UnauthorizedException ''Incorrect username or password''), db)"
      using Inr None by (simp add: login_def)
    then have fails: ?fails by blast
    have ?success using absent by blast
    then show ?thesis using absent fails by blast
  next
    case (Some user)
    have m: "user \<in> set (store db)" "username user = login_username credentials"
      using Inr Some lookup_by_username(2) [OF assms, of "login_username credentials" user]
      by simp_all
    have only: "v = user"
      if "v \<in> set (store db)" "username v = login_username credentials" for v
      using unique_row [OF assms that(1) m(1)] that(2) m(2) by simp
    show ?thesis
    proof (cases "verify_password sec (login_password credentials) (hashed_password user)")
      case False
      have "login sec credentials db =
          (Inl (UnauthorizedException ''Incorrect username or password''), db)"
        using Inr Some False by (simp add: login_def)
      then have fails: ?fails by blast
      have mm: ?mismatch using m False by blast
      have ?success using only False by blast
      then show ?thesis using fails mm by blast
    next
      case True
      note v = True
      show ?thesis
      proof (cases "is_active user")
        case False
        have "login sec credentials db =
            (Inl (UnauthorizedException ''User account is deactivated''), db)"
          using Inr Some v False by (simp add: login_def)
        then have fails: ?fails by blast
        have ia: ?inactive using m False by blast
        have ?success using only False by blast
        then show ?thesis using fails ia by blast
      next
        case True
        have ok: "login sec credentials db =
          (Inr \<lparr>access_token = create_access_token sec [(''sub'', user_id user)],
              refresh_token = create_refresh_token sec [(''sub'', user_id user)],
              token_type = ''bearer''\<rparr>, db)"
          using Inr Some v True by (simp add: login_def)
        have no: "\<not> ?fails"
          unfolding ok by simp
        have cond: "\<not> (?absent \<or> ?mismatch \<or> ?inactive)"
          using m only v True by blast
        have succ: ?success
        proof (intro ballI impI)
          fix u assume "u \<in> set (store db)"
            and "username u = login_username credentials \<and>
              verify_password sec (login_password credentials) (hashed_password u) \<and> is_active u"
          then have "u = user" using only by blast
          then show "login sec credentials db =
            (Inr \<lparr>access_token = create_access_token sec [(''sub'', user_id u)],
              refresh_token = create_refresh_token sec [(''sub'', user_id u)],
              token_type = ''bearer''\<rparr>, db)"
            using ok by simp
        qed
        show ?thesis using no cond succ by blast
      qed
    qed
  qed
qed

theorem login_outcome_witness:
  "distinct (map username (store demo_session)) \<and>
   demo_user \<in> set (store demo_session) \<and>
   username demo_user = login_username \<lparr>login_username = ''alice'', login_password = ''secret123''\<rparr> \<and>
   verify_password demo_security
     (login_password \<lparr>login_username = ''alice'', login_password = ''secret123''\<rparr>)
     (hashed_password demo_user) \<and>
   is_active demo_user \<and>
   login demo_security \<lparr>login_username = ''alice'', login_password = ''secret123''\<rparr> demo_session
     = (Inr \<lparr>access_token = create_access_token demo_security [(''sub'', user_id demo_user)],
             refresh_token = create_refresh_token demo_security [(''sub'', user_id demo_user)],
             token_type = ''bearer''\<rparr>, demo_session)"
proof -
  have h: "distinct (map username (store demo_session))" by (simp add: demo_session_def)
  have u: "demo_user \<in> set (store demo_session)" by (simp add: demo_session_def)
  have a: "username demo_user = login_username \<lparr>login_username = ''alice'', login_password = ''secret123''\<rparr>"
    by (simp add: demo_user_def)
  have b: "verify_password demo_security
     (login_password \<lparr>login_username = ''alice'', login_password = ''secret123''\<rparr>)
     (hashed_password demo_user)"
    by (simp add: demo_user_def demo_security_def)
  have c: "is_active demo_user" by (simp add: demo_user_def)
  show ?thesis
    using h u a b c
      login_outcome [OF h, of demo_security
        "\<lparr>login_username = ''alice'', login_password = ''secret123''\<rparr>"]
    by blast
qed

lemma refresh_leaves_session: "snd (refresh_access_token sec refresh_data db) = db"
  by (simp add: refresh_access_token_def split: option.split sum.split)

text \<open>
  C3.  On a table whose primary key is unique and holds no empty id,
  \<^verbatim>\<open>refresh_access_token\<close> fails with Unauthorized exactly when \<^verbatim>\<open>decode_token\<close>
  rejects the token, or its type claim is not \<^verbatim>\<open>"refresh"\<close>, or the \<^verbatim>\<open>sub\<close> claim is
  absent, or the user it names does not exist or is not active; otherwise it
  returns a new access and refresh token for that subject.  In every case the
  session is returned as it was, so the same refresh token presented again has
  the same outcome: it is not invalidated.
\<close>

theorem refresh_outcome:
  assumes "distinct (map user_id (store db))"
    and "\<forall>u \<in> set (store db). user_id u \<noteq> []"
  shows
  "((\<exists>d. refresh_access_token sec refresh_data db = (Inl (UnauthorizedException d), db)) \<longleftrightarrow>
      (decode_token sec refresh_data = None \<or>
       (\<exists>payload. decode_token sec refresh_data = Some payload \<and>
          (type payload \<noteq> Some ''refresh'' \<or> sub payload = None \<or>
           (\<exists>uid. sub payload = Some uid \<and>
              ((\<forall>u \<in> set (store db). user_id u \<noteq> uid) \<or>
               (\<exists>u \<in> set (store db). user_id u = uid \<and> \<not> is_active u)))))))
   \<and>
   (\<forall>payload. \<forall>u \<in> set (store db).
      decode_token sec refresh_data = Some payload \<and> type payload = Some ''refresh'' \<and>
      sub payload = Some (user_id u) \<and> is_active u \<longrightarrow>
      refresh_access_token sec refresh_data db =
        (Inr \<lparr>access_token = create_access_token sec [(''sub'', user_id u)],
              refresh_token = create_refresh_token sec [(''sub'', user_id u)],
              token_type = ''bearer''\<rparr>, db))
   \<and>
   snd (refresh_access_token sec refresh_data db) = db
   \<and>
   refresh_access_token sec refresh_data (snd (refresh_access_token sec refresh_data db))
     = refresh_access_token sec refresh_data db"
  (is "(?fails \<longleftrightarrow> ?cond) \<and> ?success \<and> ?same \<and> ?again")
proof -
  have same: ?same by (rule refresh_leaves_session)
  have again: ?again by (simp only: refresh_leaves_session)
  have main: "(?fails \<longleftrightarrow> ?cond) \<and> ?success"
  proof (cases "decode_token sec refresh_data")
    case None
    have "refresh_access_token sec refresh_data db =
        (Inl (UnauthorizedException ''Invalid or expired refresh token''), db)"
      using None by (simp add: refresh_access_token_def)
    then have ?fails by blast
    moreover have ?cond using None by blast
    moreover have ?success using None by simp
    ultimately show ?thesis by blast
  next
    case (Some payload)
    note dec = Some
    show ?thesis
    proof (cases "type payload = Some ''refresh''")
      case False
      have "\<exists>d. refresh_access_token sec refresh_data db = (Inl (UnauthorizedException d), db)"
        using dec False by (auto simp: refresh_access_token_def verify_token_type_def)
      then have ?fails .
      moreover have ?cond using dec False by blast
      moreover have ?success using dec False by auto
      ultimately show ?thesis by blast
    next
      case True
      note ty = True
      then have ne: "payload \<noteq> empty_payload" by (auto simp: empty_payload_def)
      show ?thesis
      proof (cases "sub payload")
        case None
        have "refresh_access_token sec refresh_data db =
            (Inl (UnauthorizedException ''Invalid token payload''), db)"
          using dec ty ne None by (simp add: refresh_access_token_def verify_token_type_def)
        then have ?fails by blast
        moreover have ?cond using dec None by blast
        moreover have ?success using dec None by auto
        ultimately show ?thesis by blast
      next
        case (Some uid)
        note s = Some
        show ?thesis
        proof (cases "uid = []")
          case True
          have "refresh_access_token sec refresh_data db =
              (Inl (UnauthorizedException ''Invalid token payload''), db)"
            using dec ty ne s True by (simp add: refresh_access_token_def verify_token_type_def)
          then have f: ?fails by blast
          have nobody: "\<forall>u \<in> set (store db). user_id u \<noteq> uid"
            using assms(2) True by simp
          have c: ?cond using dec s nobody by blast
          have ?success using dec s nobody by auto
          then show ?thesis using f c by blast
        next
          case False
          note uid_ne = False
          show ?thesis
          proof (cases "scalar_one_or_none (filter (\<lambda>u. user_id u = uid) (store db))")
            case (Inl e)
            then show ?thesis using lookup_by_id(3) [OF assms(1)] by blast
          next
            case (Inr found)
            show ?thesis
            proof (cases found)
              case None
              have nobody: "\<forall>u \<in> set (store db). user_id u \<noteq> uid"
                using Inr None lookup_by_id(1) [OF assms(1), of uid] by blast
              have "refresh_access_token sec refresh_data db =
                  (Inl (UnauthorizedException ''User not found or deactivated''), db)"
                using dec ty ne s uid_ne Inr None
                by (simp add: refresh_access_token_def verify_token_type_def)
              then have f: ?fails by blast
              have c: ?cond using dec s nobody by blast
              have ?success using dec s nobody by auto
              then show ?thesis using f c by blast
            next
              case (Some user)
              have m: "user \<in> set (store db)" "user_id user = uid"
                using Inr Some lookup_by_id(2) [OF assms(1), of uid user] by simp_all
              have only: "v = user" if "v \<in> set (store db)" "user_id v = uid" for v
                using unique_row [OF assms(1) that(1) m(1)] that(2) m(2) by simp
              show ?thesis
              proof (cases "is_active user")
                case False
                have "refresh_access_token sec refresh_data db =
                    (Inl (UnauthorizedException ''User not found or deactivated''), db)"
                  using dec ty ne s uid_ne Inr Some False
                  by (simp add: refresh_access_token_def verify_token_type_def)
                then have f: ?fails by blast
                have c: ?cond using dec s m False by blast
                have ?success
                proof (intro allI ballI impI)
                  fix p u
                  assume "u \<in> set (store db)"
                    and h: "decode_token sec refresh_data = Some p \<and> type p = Some ''refresh'' \<and>
                      sub p = Some (user_id u) \<and> is_active u"
                  then have "p = payload" using dec by simp
                  then have "user_id u = uid" using h s by simp
                  then have "u = user" using only \<open>u \<in> set (store db)\<close> by blast
                  then show "refresh_access_token sec refresh_data db =
                    (Inr \<lparr>access_token = create_access_token sec [(''sub'', user_id u)],
                          refresh_token = create_refresh_token sec [(''sub'', user_id u)],
                          token_type = ''bearer''\<rparr>, db)"
                    using h False by simp
                qed
                then show ?thesis using f c by blast
              next
                case True
                have ok: "refresh_access_token sec refresh_data db =
                    (Inr \<lparr>access_token = create_access_token sec [(''sub'', user_id user)],
                          refresh_token = create_refresh_token sec [(''sub'', user_id user)],
                          token_type = ''bearer''\<rparr>, db)"
                  using dec ty ne s uid_ne Inr Some True
                  by (simp add: refresh_access_token_def verify_token_type_def)
                have nf: "\<not> ?fails" unfolding ok by simp
                have nc: "\<not> ?cond"
                proof
                  assume ?cond
                  then have "(\<forall>u \<in> set (store db). user_id u \<noteq> uid) \<or>
                     (\<exists>u \<in> set (store db). user_id u = uid \<and> \<not> is_active u)"
                    using dec ty s by auto
                  then show False using m only True by blast
                qed
                have ?success
                proof (intro allI ballI impI)
                  fix p u
                  assume "u \<in> set (store db)"
                    and h: "decode_token sec refresh_data = Some p \<and> type p = Some ''refresh'' \<and>
                      sub p = Some (user_id u) \<and> is_active u"
                  then have "p = payload" using dec by simp
                  then have "user_id u = uid" using h s by simp
                  then have "u = user" using only \<open>u \<in> set (store db)\<close> by blast
                  then show "refresh_access_token sec refresh_data db =
                    (Inr \<lparr>access_token = create_access_token sec [(''sub'', user_id u)],
                          refresh_token = create_refresh_token sec [(''sub'', user_id u)],
                          token_type = ''bearer''\<rparr>, db)"
                    using ok by simp
                qed
                then show ?thesis using nf nc by blast
              qed
            qed
          qed
        qed
      qed
    qed
  qed
  show ?thesis using main same again by blast
qed

theorem refresh_outcome_witness:
  "distinct (map user_id (store demo_session)) \<and>
   store demo_session = [demo_user] \<and> user_id demo_user \<noteq> [] \<and>
   refresh_access_token demo_security ''refresh:id-alice'' demo_session
     = (Inr \<lparr>access_token = create_access_token demo_security [(''sub'', user_id demo_user)],
             refresh_token = create_refresh_token demo_security [(''sub'', user_id demo_user)],
             token_type = ''bearer''\<rparr>, demo_session) \<and>
   refresh_access_token demo_security ''refresh:id-alice''
       (snd (refresh_access_token demo_security ''refresh:id-alice'' demo_session))
     = refresh_access_token demo_security ''refresh:id-alice'' demo_session"
proof -
  have h1: "distinct (map user_id (store demo_session))" by (simp add: demo_session_def)
  have h2: "\<forall>u \<in> set (store demo_session). user_id u \<noteq> []"
    by (simp add: demo_session_def demo_user_def)
  have h3: "store demo_session = [demo_user] \<and> user_id demo_user \<noteq> []"
    by (simp add: demo_session_def demo_user_def)
  have u: "demo_user \<in> set (store demo_session)" by (simp add: demo_session_def)
  have d: "decode_token demo_security ''refresh:id-alice''
      = Some \<lparr>sub = Some ''id-alice'', exp = Some 900, type = Some ''refresh''\<rparr>"
    by (simp add: demo_security_def)
  have a: "type \<lparr>sub = Some ''id-alice'', exp = Some 900, type = Some ''refresh''\<rparr> = Some ''refresh''"
    "sub \<lparr>sub = Some ''id-alice'', exp = Some 900, type = Some ''refresh''\<rparr> = Some (user_id demo_user)"
    "is_active demo_user"
    by (simp_all add: demo_user_def)
  show ?thesis
    using h1 h2 h3 u d a
      refresh_outcome [OF h1 h2, of demo_security "''refresh:id-alice''"]
    by blast
qed

section \<open>Registration\<close>

lemma lookup_by_key:
  assumes "distinct (map f rows)"
  shows "scalar_one_or_none (filter (\<lambda>u. f u = k) rows) = Inr None
           \<longleftrightarrow> \<not> (\<exists>u \<in> set rows. f u = k)"
    and "(\<exists>v. scalar_one_or_none (filter (\<lambda>u. f u = k) rows) = Inr (Some v))
           \<longleftrightarrow> (\<exists>u \<in> set rows. f u = k)"
  using assms by (auto simp: scalar_unique find_key_Some find_key_None)

lemma lookup_nobody:
  "\<forall>u \<in> set rows. f u \<noteq> k \<Longrightarrow> scalar_one_or_none (filter (\<lambda>u. f u = k) rows) = Inr None"
proof -
  assume "\<forall>u \<in> set rows. f u \<noteq> k"
  then have "filter (\<lambda>u. f u = k) rows = []" by (simp add: filter_empty_conv)
  then show ?thesis by simp
qed

lemma register_username_taken:
  assumes "distinct (map username (store db))"
    and "\<exists>u \<in> set (store db). username u = username user_data"
  shows "register sec new_id concurrent user_data db
           = (Inl (ConflictException ''Username already registered''), db)"
proof -
  obtain v where "scalar_one_or_none
      (filter (\<lambda>u. username u = username user_data) (store db)) = Inr (Some v)"
    using lookup_by_key(2) [OF assms(1), of "username user_data"] assms(2) by blast
  then show ?thesis by (simp add: register_def)
qed

lemma register_email_taken:
  assumes "distinct (map email (store db))"
    and "\<forall>u \<in> set (store db). username u \<noteq> username user_data"
    and "\<exists>u \<in> set (store db). email u = email user_data"
  shows "register sec new_id concurrent user_data db
           = (Inl (ConflictException ''Email already registered''), db)"
proof -
  have n: "scalar_one_or_none
      (filter (\<lambda>u. username u = username user_data) (store db)) = Inr None"
    using lookup_nobody [of "store db" username "username user_data"] assms(2) by blast
  obtain v where "scalar_one_or_none
      (filter (\<lambda>u. email u = email user_data) (store db)) = Inr (Some v)"
    using lookup_by_key(2) [OF assms(1), of "email user_data"] assms(3) by blast
  then show ?thesis using n by (simp add: register_def)
qed

lemma register_checks_pass:
  assumes "\<forall>u \<in> set (store db). username u \<noteq> username user_data"
    and "\<forall>u \<in> set (store db). email u \<noteq> email user_data"
  shows "register sec new_id concurrent user_data db =
     (case commit concurrent (add db (new_row sec new_id user_data)) of
        (Inl e, db') \<Rightarrow> (Inl e, db')
      | (Inr u, db') \<Rightarrow> (Inr (new_row sec new_id user_data), db'))"
proof -
  have "scalar_one_or_none
      (filter (\<lambda>u. username u = username user_data) (store db)) = Inr None"
    using lookup_nobody [of "store db" username "username user_data"] assms(1) by blast
  moreover have "scalar_one_or_none
      (filter (\<lambda>u. email u = email user_data) (store db)) = Inr None"
    using lookup_nobody [of "store db" email "email user_data"] assms(2) by blast
  ultimately show ?thesis
    by (simp add: register_def new_row_def Let_def split: prod.split sum.split)
qed

lemma register_fresh:
  assumes "pending db = []"
    and "\<forall>u \<in> set (store db). username u \<noteq> username user_data"
    and "\<forall>u \<in> set (store db). email u \<noteq> email user_data"
    and "\<forall>u \<in> set (store db). user_id u \<noteq> new_id"
  shows "register sec new_id [] user_data db =
     (Inr (new_row sec new_id user_data),
      \<lparr>store = store db @ [new_row sec new_id user_data], pending = []\<rparr>)"
proof -
  have "\<not> violates (store db) (new_row sec new_id user_data)"
    using assms(2-4) by (auto simp: violates_def new_row_def)
  then have "commit [] (add db (new_row sec new_id user_data)) =
      (Inr (), \<lparr>store = store db @ [new_row sec new_id user_data], pending = []\<rparr>)"
    using assms(1) by (simp add: commit_def add_def)
  then show ?thesis using register_checks_pass [OF assms(2,3)] by simp
qed

lemma register_raced:
  assumes "pending db = []"
    and "\<forall>u \<in> set (store db). username u \<noteq> username user_data"
    and "\<forall>u \<in> set (store db). email u \<noteq> email user_data"
    and "\<exists>v \<in> set concurrent. username v = username user_data"
  shows "register sec new_id concurrent user_data db =
     (Inl IntegrityError,
      \<lparr>store = store db @ concurrent, pending = [new_row sec new_id user_data]\<rparr>)"
proof -
  have "violates (store db @ concurrent) (new_row sec new_id user_data)"
    using assms(4) by (auto simp: violates_def new_row_def)
  then have "commit concurrent (add db (new_row sec new_id user_data)) =
      (Inl IntegrityError,
       \<lparr>store = store db @ concurrent, pending = [new_row sec new_id user_data]\<rparr>)"
    using assms(1) by (simp add: commit_def add_def)
  then show ?thesis using register_checks_pass [OF assms(2,3)] by simp
qed

text \<open>
  C4, for requests that run one after the other.  On a table whose \<^verbatim>\<open>username\<close>
  and \<^verbatim>\<open>email\<close> columns are unique, \<^verbatim>\<open>register\<close> fails with Conflict (409) and
  leaves the session as it was when a user has the requested username, and
  otherwise when a user has the requested email; the username is checked first,
  so it decides the outcome when both are taken.  Hence, when the first of two
  registrations with the same username has succeeded and inserted its row before
  the second one starts, the second one fails with Conflict, whatever its email.
\<close>

theorem register_conflict:
  assumes "distinct (map username (store db))" and "distinct (map email (store db))"
  shows
  "((\<exists>u \<in> set (store db). username u = username user_data) \<longrightarrow>
      register sec new_id concurrent user_data db
        = (Inl (ConflictException ''Username already registered''), db)) \<and>
   ((\<forall>u \<in> set (store db). username u \<noteq> username user_data) \<and>
    (\<exists>u \<in> set (store db). email u = email user_data) \<longrightarrow>
      register sec new_id concurrent user_data db
        = (Inl (ConflictException ''Email already registered''), db)) \<and>
   http_status (ConflictException m) = 409 \<and>
   (pending db = [] \<and>
    (\<forall>u \<in> set (store db). username u \<noteq> username user_data \<and>
        email u \<noteq> email user_data \<and> user_id u \<noteq> new_id) \<and>
    username second = username user_data \<longrightarrow>
      fst (register sec new_id [] user_data db) = Inr (new_row sec new_id user_data) \<and>
      store (snd (register sec new_id [] user_data db))
        = store db @ [new_row sec new_id user_data] \<and>
      register sec new_id' concurrent' second (snd (register sec new_id [] user_data db))
        = (Inl (ConflictException ''Username already registered''),
           snd (register sec new_id [] user_data db)))"
  (is "?A \<and> ?B \<and> ?C \<and> ?D")
proof -
  have a: ?A using register_username_taken [OF assms(1)] by blast
  have b: ?B using register_email_taken [OF assms(2)] by blast
  have c: ?C by (simp add: ConflictException_def)
  have d: ?D
  proof
    assume h: "pending db = [] \<and>
      (\<forall>u \<in> set (store db). username u \<noteq> username user_data \<and>
          email u \<noteq> email user_data \<and> user_id u \<noteq> new_id) \<and>
      username second = username user_data"
    let ?row = "new_row sec new_id user_data"
    let ?db1 = "\<lparr>store = store db @ [?row], pending = []\<rparr>"
    have first: "register sec new_id [] user_data db = (Inr ?row, ?db1)"
      using h register_fresh [where db = db and user_data = user_data and new_id = new_id
        and sec = sec] by blast
    have un: "username ?row = username user_data" by (simp add: new_row_def)
    have "distinct (map username (store ?db1))"
      using assms(1) h un by auto
    moreover have "\<exists>u \<in> set (store ?db1). username u = username second"
      using h un by simp
    ultimately have "register sec new_id' concurrent' second ?db1
        = (Inl (ConflictException ''Username already registered''), ?db1)"
      by (rule register_username_taken)
    then show "fst (register sec new_id [] user_data db) = Inr ?row \<and>
      store (snd (register sec new_id [] user_data db)) = store db @ [?row] \<and>
      register sec new_id' concurrent' second (snd (register sec new_id [] user_data db))
        = (Inl (ConflictException ''Username already registered''),
           snd (register sec new_id [] user_data db))"
      by (simp add: first)
  qed
  show ?thesis using a b c d by blast
qed

theorem register_conflict_witness:
  "distinct (map username (store demo_session)) \<and>
   distinct (map email (store demo_session)) \<and>
   pending demo_session = [] \<and>
   username demo_create_again = username demo_create \<and>
   email demo_create_again \<noteq> email demo_create \<and>
   fst (register demo_security ''id-bob'' [] demo_create demo_session)
     = Inr (new_row demo_security ''id-bob'' demo_create) \<and>
   register demo_security ''id-rob'' [] demo_create_again
       (snd (register demo_security ''id-bob'' [] demo_create demo_session))
     = (Inl (ConflictException ''Username already registered''),
        snd (register demo_security ''id-bob'' [] demo_create demo_session))"
proof -
  have h1: "distinct (map username (store demo_session))" by (simp add: demo_session_def)
  have h2: "distinct (map email (store demo_session))" by (simp add: demo_session_def)
  have h3: "pending demo_session = []" by (simp add: demo_session_def)
  have h4: "\<forall>u \<in> set (store demo_session). username u \<noteq> username demo_create \<and>
        email u \<noteq> email demo_create \<and> user_id u \<noteq> ''id-bob''"
    by (simp add: demo_session_def demo_user_def demo_create_def)
  have h5: "username demo_create_again = username demo_create"
    by (simp add: demo_create_again_def demo_create_def)
  have h6: "email demo_create_again \<noteq> email demo_create"
    by (simp add: demo_create_again_def demo_create_def)
  show ?thesis
    using h1 h2 h3 h4 h5 h6
      register_conflict [OF h1 h2, where user_data = demo_create and new_id = "''id-bob''"
        and second = demo_create_again and sec = demo_security and new_id' = "''id-rob''"
        and concurrent' = "[]"]
    by blast
qed

text \<open>
  C4 as stated fails when the two requests interleave: both pass the two queries
  on the same table, the first commits its row, and the commit of the second,
  which has the same username and another email, violates the unique
  constraint.  The outcomes are one success and one integrity error with status
  500, not one success and one Conflict.
\<close>

theorem register_interleaved_counterexample:
  "username demo_create_again = username demo_create \<and>
   email demo_create_again \<noteq> email demo_create \<and>
   fst (get_db (register demo_security ''id-bob'' [] demo_create) demo_session)
     = Inr (new_row demo_security ''id-bob'' demo_create) \<and>
   fst (get_db (register demo_security ''id-rob''
                  [new_row demo_security ''id-bob'' demo_create] demo_create_again)
          demo_session)
     = Inl IntegrityError \<and>
   http_status IntegrityError = 500 \<and>
   IntegrityError \<noteq> ConflictException ''Username already registered'' \<and>
   IntegrityError \<noteq> ConflictException ''Email already registered''"
proof -
  have a: "username demo_create_again = username demo_create"
    "email demo_create_again \<noteq> email demo_create"
    by (simp_all add: demo_create_again_def demo_create_def)
  have "register demo_security ''id-bob'' [] demo_create demo_session =
     (Inr (new_row demo_security ''id-bob'' demo_create),
      \<lparr>store = store demo_session @ [new_row demo_security ''id-bob'' demo_create],
       pending = []\<rparr>)"
    by (rule register_fresh)
      (simp_all add: demo_session_def demo_user_def demo_create_def)
  then have first: "fst (get_db (register demo_security ''id-bob'' [] demo_create) demo_session)
     = Inr (new_row demo_security ''id-bob'' demo_create)"
    by (simp add: get_db_def commit_def)
  have "register demo_security ''id-rob'' [new_row demo_security ''id-bob'' demo_create]
      demo_create_again demo_session =
     (Inl IntegrityError,
      \<lparr>store = store demo_session @ [new_row demo_security ''id-bob'' demo_create],
       pending = [new_row demo_security ''id-rob'' demo_create_again]\<rparr>)"
    by (rule register_raced)
      (simp_all add: demo_session_def demo_user_def demo_create_def demo_create_again_def
        new_row_def)
  then have second: "fst (get_db (register demo_security ''id-rob''
                  [new_row demo_security ''id-bob'' demo_create] demo_create_again)
          demo_session)
     = Inl IntegrityError"
    by (simp add: get_db_def)
  show ?thesis using a first second by (simp add: ConflictException_def)
qed




section \<open>Properties of the specified codec and hasher\<close>

text \<open>
  C8.  \<^verbatim>\<open>decode\<close> is a total function whose failure is the value \<open>None\<close>:
  it returns \<open>None\<close> for a malformed token, for a signature that is not the MAC
  of the claims under the secret, for a missing expiry and for an expiry in the
  past.  A token issued at time \<open>now\<close> with time-to-live \<open>ttl\<close> decodes to its
  claims at the time of issue and up to \<open>now + ttl\<close>, and to \<open>None\<close> at any later
  time.
\<close>

theorem decode_invalid_or_unexpired:
  "decode mac secret now (Malformed raw) = None \<and>
   (tag \<noteq> mac secret claims \<longrightarrow> decode mac secret now (Signed claims tag) = None) \<and>
   (exp claims = None \<longrightarrow> decode mac secret now (Signed claims tag) = None) \<and>
   (\<forall>expiry. exp claims = Some expiry \<and> expiry < now \<longrightarrow>
      decode mac secret now (Signed claims tag) = None) \<and>
   decode mac secret now (issue mac secret now subject kind ttl)
     = Some \<lparr>sub = Some subject, exp = Some (now + int ttl), type = Some kind\<rparr> \<and>
   (now \<le> later \<and> later \<le> now + int ttl \<longrightarrow>
      decode mac secret later (issue mac secret now subject kind ttl)
        = Some \<lparr>sub = Some subject, exp = Some (now + int ttl), type = Some kind\<rparr>) \<and>
   (now + int ttl < later \<longrightarrow>
      decode mac secret later (issue mac secret now subject kind ttl) = None)"
  (is "?A \<and> ?B \<and> ?C \<and> ?D \<and> ?E \<and> ?F \<and> ?G")
proof -
  have a: ?A by (simp add: decode_def)
  have b: ?B by (simp add: decode_def)
  have c: ?C by (simp add: decode_def)
  have d: ?D by (auto simp: decode_def)
  have e: ?E by (simp add: decode_def issue_def Let_def)
  have f: ?F by (simp add: decode_def issue_def Let_def)
  have g: ?G by (simp add: decode_def issue_def Let_def)
  show ?thesis using a b c d e f g by blast
qed

theorem decode_invalid_or_unexpired_witness:
  "''forged'' \<noteq> demo_mac ''key'' \<lparr>sub = Some ''id-alice'', exp = Some 2000, type = Some ''access''\<rparr> \<and>
   decode demo_mac ''key'' 1000
     (Signed \<lparr>sub = Some ''id-alice'', exp = Some 2000, type = Some ''access''\<rparr> ''forged'') = None \<and>
   decode demo_mac ''key'' 1000 (issue demo_mac ''key'' 1000 ''id-alice'' ''access'' 60)
     = Some \<lparr>sub = Some ''id-alice'', exp = Some (1000 + int 60), type = Some ''access''\<rparr> \<and>
   (1000 :: int) + int 60 < 1061 \<and>
   decode demo_mac ''key'' 1061 (issue demo_mac ''key'' 1000 ''id-alice'' ''access'' 60) = None"
proof -
  have h1: "''forged'' \<noteq> demo_mac ''key''
      \<lparr>sub = Some ''id-alice'', exp = Some 2000, type = Some ''access''\<rparr>"
    by (simp add: demo_mac_def)
  have h2: "(1000 :: int) + int 60 < 1061" by simp
  show ?thesis
    using h1 h2
      decode_invalid_or_unexpired [where mac = demo_mac and secret = "''key''" and now = 1000
        and tag = "''forged''"
        and claims = "\<lparr>sub = Some ''id-alice'', exp = Some 2000, type = Some ''access''\<rparr>"
        and subject = "''id-alice''" and kind = "''access''" and ttl = 60 and later = 1061]
    by blast
qed

text \<open>
  C9.  \<^verbatim>\<open>verify\<close> accepts the plaintext against every digest that \<^verbatim>\<open>hash\<close>
  made of it: against the digests of two calls, whatever salts they drew, and
  the two digests differ when the salts do.
\<close>

theorem verify_accepts_own_digests:
  "verify kdf plaintext (hash kdf salt1 plaintext) \<and>
   verify kdf plaintext (hash kdf salt2 plaintext) \<and>
   (salt1 \<noteq> salt2 \<longrightarrow> hash kdf salt1 plaintext \<noteq> hash kdf salt2 plaintext)"
  by (simp add: verify_def hash_def)

theorem verify_accepts_own_digests_witness:
  "''salt-one'' \<noteq> ''salt-two'' \<and>
   hash demo_kdf ''salt-one'' ''secret123'' \<noteq> hash demo_kdf ''salt-two'' ''secret123'' \<and>
   verify demo_kdf ''secret123'' (hash demo_kdf ''salt-one'' ''secret123'') \<and>
   verify demo_kdf ''secret123'' (hash demo_kdf ''salt-two'' ''secret123'')"
proof -
  have h: "''salt-one'' \<noteq> ''salt-two''" by simp
  show ?thesis
    using h verify_accepts_own_digests [where kdf = demo_kdf and plaintext = "''secret123''"
        and ?salt1.0 = "''salt-one''" and ?salt2.0 = "''salt-two''"]
    by blast
qed

end
